theory Spec2Isabelle
  imports Complex_Main
begin

section \<open>Numbers\<close>

text \<open>
  The editor computes with JavaScript numbers. They are modelled as exact reals: every
  time value is a \<^typ>\<open>real\<close>, \<open>Math.max\<close> and \<open>Math.min\<close> are \<^const>\<open>max\<close> and
  \<^const>\<open>min\<close>, and \<open>Math.round\<close> rounds to the nearest integer with ties going up.
  Rounding error of the binary floating-point representation is outside the model.
\<close>

definition Math_round :: "real \<Rightarrow> real" where
  "Math_round x = of_int \<lfloor>x + 1 / 2\<rfloor>"

definition SNAP_GRID :: real where
  "SNAP_GRID = 2 / 100"

definition PIXELS_PER_SECOND :: real where
  "PIXELS_PER_SECOND = 100"

section \<open>Data model (types.ts)\<close>

datatype MediaType = Video | Audio

record File =
  file_name :: string
  file_type :: string

record Clip =
  id' :: string
  trackId :: string
  source :: string
  file' :: File
  type' :: MediaType
  start :: real
  duration :: real
  offset :: real
  totalDuration :: real
  name :: string
  thumbnail :: "string option"
  width :: "nat option"
  height :: "nat option"

datatype DragMode = MoveMode | TrimStartMode | TrimEndMode

record DragState =
  isDragging :: bool
  mode :: "DragMode option"
  clipId :: "string option"
  startX :: real
  originalStart :: real
  originalDuration :: real
  originalOffset :: real

subsection \<open>Export artefacts and the platform recorder\<close>

text \<open>
  A \<open>Blob\<close> is its bytes. \<open>MediaRecorder\<close> is the browser's encoder; of its interface the
  editor uses \<open>start()\<close>, \<open>stop()\<close> and the \<open>dataavailable\<close> and \<open>stop\<close> events. \<open>stop()\<close> on
  a recording recorder makes it inactive and queues one \<open>stop\<close> event; on an inactive
  recorder it queues nothing.
\<close>

type_synonym Blob = string

datatype RecordingState = Inactive | Recording

record MediaRecorder =
  state :: RecordingState
  mimeType :: string
  stopQueued :: bool

record Artifact =
  blobParts :: "Blob list"
  blobType :: string

subsection \<open>Application state\<close>

text \<open>
  The \<open>useState\<close> cells and refs of \<open>App\<close> and the \<open>dragState\<close> cell of \<open>Timeline\<close>. The cell
  that the source calls \<open>totalDuration\<close> is \<open>timelineDuration\<close> here, the clip field of that
  name keeps it. \<open>refsMounted\<close> says that \<open>canvasRef.current\<close> and \<open>audioDestRef.current\<close> are
  set, \<open>exportTimer\<close> that the 200 ms timeout of \<open>handleExport\<close> is pending, and \<open>downloads\<close>
  lists the files handed to the browser so far.

  Clip objects are never assigned to in place (every change builds a new object with the
  spread syntax), so a clip is a value and a reference to a clip object is a copy of its
  fields.
\<close>

record App =
  clips :: "Clip list"
  isPlaying :: bool
  isExporting :: bool
  currentTime :: real
  timelineDuration :: real
  selectedClipId :: "string option"
  previousTimeRef :: "real option"
  clipboardRef :: "Clip option"
  dragState :: DragState
  refsMounted :: bool
  exportTimer :: bool
  mediaRecorderRef :: "MediaRecorder option"
  recordedChunksRef :: "Blob list"
  downloads :: "Artifact list"

text \<open>A string or \<open>null\<close> in a condition: \<open>null\<close> and the empty string count as false.\<close>

definition truthy :: "string option \<Rightarrow> bool" where
  "truthy s = (case s of None \<Rightarrow> False | Some x \<Rightarrow> x \<noteq> [])"

section \<open>Timeline duration (App, auto-adjust effect)\<close>

definition maxClipEnd :: "Clip list \<Rightarrow> real" where
  "maxClipEnd cs = foldl (\<lambda>m clip. max m (start clip + duration clip)) 0 cs"

definition newDuration :: "Clip list \<Rightarrow> real" where
  "newDuration cs = (if maxClipEnd cs > 0 then maxClipEnd cs else 30)"

definition autoAdjustTotalDuration :: "App \<Rightarrow> App" where
  "autoAdjustTotalDuration st = st\<lparr>timelineDuration := newDuration (clips st)\<rparr>"

section \<open>Edit handlers\<close>

definition setClips :: "(Clip list \<Rightarrow> Clip list) \<Rightarrow> App \<Rightarrow> App" where
  "setClips f st = st\<lparr>clips := f (clips st)\<rparr>"

definition setSelectedClipId :: "string option \<Rightarrow> App \<Rightarrow> App" where
  "setSelectedClipId s st = st\<lparr>selectedClipId := s\<rparr>"

definition setCurrentTime :: "real \<Rightarrow> App \<Rightarrow> App" where
  "setCurrentTime t st = st\<lparr>currentTime := t\<rparr>"

text \<open>\<open>clips.find(c => c.id === i)\<close>: the first clip with that id; \<open>null\<close> matches none.\<close>

definition findClip :: "string option \<Rightarrow> Clip list \<Rightarrow> Clip option" where
  "findClip i cs = (case i of None \<Rightarrow> None | Some j \<Rightarrow> find (\<lambda>c. id' c = j) cs)"

text \<open>
  \<open>handleClipUpdate\<close>; the \<open>Partial<Clip>\<close> argument is the function that overwrites the
  fields it lists.
\<close>

definition handleClipUpdate :: "string \<Rightarrow> (Clip \<Rightarrow> Clip) \<Rightarrow> App \<Rightarrow> App" where
  "handleClipUpdate i updates st =
     setClips (map (\<lambda>c. if id' c = i then updates c else c)) st"

definition handleDeleteClip :: "string \<Rightarrow> App \<Rightarrow> App" where
  "handleDeleteClip i st =
     (let st1 = setClips (filter (\<lambda>c. id' c \<noteq> i)) st
      in if selectedClipId st = Some i then setSelectedClipId None st1 else st1)"

definition handleMouseDown :: "real \<Rightarrow> Clip \<Rightarrow> DragMode \<Rightarrow> App \<Rightarrow> App" where
  "handleMouseDown clientX clip m st =
     (setSelectedClipId (Some (id' clip)) st)
       \<lparr>dragState := \<lparr>isDragging = True, mode = Some m, clipId = Some (id' clip),
                      startX = clientX, originalStart = start clip,
                      originalDuration = duration clip, originalOffset = offset clip\<rparr>\<rparr>"

text \<open>The three branches of \<open>handleMouseMove\<close>, each giving the \<open>updates\<close> object.\<close>

definition moveUpdates :: "DragState \<Rightarrow> real \<Rightarrow> Clip \<Rightarrow> Clip" where
  "moveUpdates ds deltaSeconds =
     (let rawNewStart = max 0 (originalStart ds + deltaSeconds);
          newStart = Math_round (rawNewStart / SNAP_GRID) * SNAP_GRID
      in (\<lambda>c. c\<lparr>start := newStart\<rparr>))"

definition trimStartDelta :: "DragState \<Rightarrow> real \<Rightarrow> real" where
  "trimStartDelta ds deltaSeconds =
     (let rawNewStart = originalStart ds + deltaSeconds;
          newStart = Math_round (rawNewStart / SNAP_GRID) * SNAP_GRID;
          finalDelta = newStart - originalStart ds;
          maxDelta = originalDuration ds - 1 / 10;
          minDelta = - originalOffset ds
      in min (max finalDelta minDelta) maxDelta)"

definition trimStartUpdates :: "DragState \<Rightarrow> real \<Rightarrow> Clip \<Rightarrow> Clip" where
  "trimStartUpdates ds deltaSeconds =
     (let finalDelta = trimStartDelta ds deltaSeconds
      in (\<lambda>c. c\<lparr>start := originalStart ds + finalDelta,
                 duration := originalDuration ds - finalDelta,
                 offset := originalOffset ds + finalDelta\<rparr>))"

definition trimEndDuration :: "DragState \<Rightarrow> real \<Rightarrow> real" where
  "trimEndDuration ds deltaSeconds =
     (let rawNewDuration = originalDuration ds + deltaSeconds;
          snapped = Math_round (rawNewDuration / SNAP_GRID) * SNAP_GRID
      in max (1 / 10) snapped)"

definition trimEndUpdates :: "DragState \<Rightarrow> real \<Rightarrow> Clip \<Rightarrow> Clip \<Rightarrow> Clip" where
  "trimEndUpdates ds deltaSeconds clip =
     (let newDur = trimEndDuration ds deltaSeconds
      in if originalOffset ds + newDur \<le> totalDuration clip
         then (\<lambda>c. c\<lparr>duration := newDur\<rparr>)
         else (\<lambda>c. c\<lparr>duration := totalDuration clip - originalOffset ds\<rparr>))"

definition dragUpdates :: "DragState \<Rightarrow> real \<Rightarrow> Clip \<Rightarrow> Clip \<Rightarrow> Clip" where
  "dragUpdates ds deltaSeconds clip =
     (case mode ds of
        Some MoveMode \<Rightarrow> moveUpdates ds deltaSeconds
      | Some TrimStartMode \<Rightarrow> trimStartUpdates ds deltaSeconds
      | Some TrimEndMode \<Rightarrow> trimEndUpdates ds deltaSeconds clip
      | None \<Rightarrow> (\<lambda>c. c))"

definition handleMouseMove :: "real \<Rightarrow> App \<Rightarrow> App" where
  "handleMouseMove clientX st =
     (let ds = dragState st
      in if \<not> isDragging ds \<or> \<not> truthy (clipId ds) then st
         else let deltaX = clientX - startX ds;
                  deltaSeconds = deltaX / PIXELS_PER_SECOND
              in case findClip (clipId ds) (clips st) of
                   None \<Rightarrow> st
                 | Some clip \<Rightarrow>
                     handleClipUpdate (id' clip) (dragUpdates ds deltaSeconds clip) st)"

definition handleMouseUp :: "App \<Rightarrow> App" where
  "handleMouseUp st =
     st\<lparr>dragState := (dragState st)\<lparr>isDragging := False, clipId := None, mode := None\<rparr>\<rparr>"

text \<open>
  \<open>handleSplitClip\<close>. \<open>generateId()\<close> draws a random string; its two results are the
  arguments \<open>newId1\<close> and \<open>newId2\<close>.
\<close>

definition handleSplitClip :: "string \<Rightarrow> string \<Rightarrow> App \<Rightarrow> App" where
  "handleSplitClip newId1 newId2 st =
     (if \<not> truthy (selectedClipId st) then st
      else case findClip (selectedClipId st) (clips st) of
        None \<Rightarrow> st
      | Some clip \<Rightarrow>
          if currentTime st \<le> start clip + 5 / 100
             \<or> currentTime st \<ge> start clip + duration clip - 5 / 100
          then st
          else
            let splitPointRelativeToClip = currentTime st - start clip;
                clip1 = clip\<lparr>id' := newId1, duration := splitPointRelativeToClip\<rparr>;
                clip2 = clip\<lparr>id' := newId2, start := currentTime st,
                             duration := duration clip - splitPointRelativeToClip,
                             offset := offset clip + splitPointRelativeToClip\<rparr>
            in setSelectedClipId (Some (id' clip2))
                 (setClips (\<lambda>prev. filter (\<lambda>c. id' c \<noteq> id' clip) prev @ [clip1, clip2]) st))"

text \<open>
  \<open>addClipFromFile\<close> from the point where the metadata probe has answered: \<open>meta\<close> is
  the probe's result, \<open>newId\<close> the result of \<open>generateId()\<close> and \<open>url\<close> that of
  \<open>URL.createObjectURL\<close>. \<open>sort\<close> is stable and \<open>pop\<close> takes the last element.
\<close>

record Metadata =
  metaDuration :: real
  metaWidth :: "nat option"
  metaHeight :: "nat option"

definition clipEnd :: "Clip \<Rightarrow> real" where
  "clipEnd c = start c + duration c"

definition lastClipOf :: "Clip list \<Rightarrow> Clip option" where
  "lastClipOf trackClips =
     (case sort_key clipEnd trackClips of [] \<Rightarrow> None | c # cs \<Rightarrow> Some (last (c # cs)))"

definition addClipFromFile ::
  "string \<Rightarrow> string \<Rightarrow> File \<Rightarrow> string \<Rightarrow> MediaType \<Rightarrow> Metadata \<Rightarrow> App \<Rightarrow> App" where
  "addClipFromFile newId url f tid ty meta st =
     setClips (\<lambda>prevClips.
       let trackClips = filter (\<lambda>c. trackId c = tid) prevClips;
           lastClip = lastClipOf trackClips;
           start0 = (case lastClip of
                       Some l \<Rightarrow> start l + duration l + 5 / 10
                     | None \<Rightarrow> 0);
           newClip = \<lparr>id' = newId, trackId = tid, source = url, file' = f, type' = ty,
                      start = start0, duration = min (metaDuration meta) 10, offset = 0,
                      totalDuration = metaDuration meta, name = file_name f,
                      thumbnail = None,
                      width = (if ty = Video then metaWidth meta else None),
                      height = (if ty = Video then metaHeight meta else None)\<rparr>
       in prevClips @ [newClip]) st"

text \<open>
  The keyboard shortcuts of \<open>handleKeyDown\<close>: copy, paste and delete. The clipboard takes
  the clip object that is in the model at the time of the copy.
\<close>

definition keyCopy :: "App \<Rightarrow> App" where
  "keyCopy st =
     (if truthy (selectedClipId st)
      then case findClip (selectedClipId st) (clips st) of
             Some clip \<Rightarrow> st\<lparr>clipboardRef := Some clip\<rparr>
           | None \<Rightarrow> st
      else st)"

definition keyPaste :: "string \<Rightarrow> App \<Rightarrow> App" where
  "keyPaste newId st =
     (case clipboardRef st of
        None \<Rightarrow> st
      | Some cb \<Rightarrow>
          let start0 = (case findClip (selectedClipId st) (clips st) of
                          Some selectedClip \<Rightarrow> start selectedClip + duration selectedClip
                        | None \<Rightarrow> currentTime st);
              newClip = cb\<lparr>id' := newId, start := start0, trackId := trackId cb\<rparr>
          in setSelectedClipId (Some (id' newClip))
               (setClips (\<lambda>prev. prev @ [newClip]) st))"

definition keyDelete :: "App \<Rightarrow> App" where
  "keyDelete st =
     (case selectedClipId st of
        None \<Rightarrow> st
      | Some i \<Rightarrow> if i = [] then st else handleDeleteClip i st)"

definition clearAll :: "App \<Rightarrow> App" where
  "clearAll st = setClips (\<lambda>_. []) st"

section \<open>Transport clock (App, playback engine)\<close>

text \<open>
  \<open>animate\<close>, the animation-frame callback, with the state update it queues through
  \<open>setCurrentTime\<close>. \<open>time\<close> is the frame's time stamp in milliseconds.
\<close>

definition animate :: "real \<Rightarrow> App \<Rightarrow> App" where
  "animate time st =
     (let st1 =
        (case previousTimeRef st of
           None \<Rightarrow> st
         | Some previousTime \<Rightarrow>
             let deltaTime = (time - previousTime) / 1000;
                 next = currentTime st + deltaTime
             in if next \<ge> timelineDuration st
                then if isExporting st
                     then st\<lparr>isPlaying := False, currentTime := timelineDuration st\<rparr>
                     else st\<lparr>isPlaying := False, currentTime := 0\<rparr>
                else st\<lparr>currentTime := next\<rparr>)
      in st1\<lparr>previousTimeRef := Some time\<rparr>)"

text \<open>
  The effect on \<open>isPlaying\<close>: while playing a frame is requested, otherwise the pending
  frame is cancelled and the previous time stamp forgotten.
\<close>

definition playbackEffect :: "App \<Rightarrow> App" where
  "playbackEffect st = (if isPlaying st then st else st\<lparr>previousTimeRef := None\<rparr>)"

definition togglePlay :: "App \<Rightarrow> App" where
  "togglePlay st = st\<lparr>isPlaying := \<not> isPlaying st\<rparr>"

definition onSeek :: "real \<Rightarrow> App \<Rightarrow> App" where
  "onSeek t st = (if \<not> isExporting st then setCurrentTime t st else st)"

text \<open>\<open>handleTimelineClick\<close> at the horizontal position \<open>x\<close> of the ruler's content.\<close>

definition handleTimelineClick :: "real \<Rightarrow> App \<Rightarrow> App" where
  "handleTimelineClick x st =
     (if isDragging (dragState st) then st
      else let time = max 0 (x / PIXELS_PER_SECOND);
               snappedTime = Math_round (time / SNAP_GRID) * SNAP_GRID
           in onSeek snappedTime (setSelectedClipId None st))"

section \<open>Export pipeline (App, export logic)\<close>

definition chooseMimeType :: "(string \<Rightarrow> bool) \<Rightarrow> string" where
  "chooseMimeType isTypeSupported =
     (if isTypeSupported ''video/mp4'' then ''video/mp4''
      else if isTypeSupported ''video/mp4;codecs=avc1.42E01E,mp4a.40.2''
      then ''video/mp4;codecs=avc1.42E01E,mp4a.40.2''
      else if isTypeSupported ''video/webm;codecs=h264'' then ''video/webm;codecs=h264''
      else ''video/webm;codecs=vp9'')"

definition handleExport :: "App \<Rightarrow> App" where
  "handleExport st =
     (if isExporting st then st
      else st\<lparr>isPlaying := False, currentTime := 0, isExporting := True,
              recordedChunksRef := [], exportTimer := True\<rparr>)"

text \<open>
  The callback of the timeout set by \<open>handleExport\<close>. The streams, the bit rate and the
  file name of the download only configure the recorder and name the file; they are not
  part of the model, and neither is the state of the audio context that \<open>handleExport\<close>
  and \<open>togglePlay\<close> resume.
\<close>

definition exportTimeout :: "(string \<Rightarrow> bool) \<Rightarrow> App \<Rightarrow> App" where
  "exportTimeout isTypeSupported st =
     (if \<not> exportTimer st then st
      else let st0 = st\<lparr>exportTimer := False\<rparr>
           in if \<not> refsMounted st0 then st0
              else st0\<lparr>mediaRecorderRef :=
                          Some \<lparr>state = Recording, mimeType = chooseMimeType isTypeSupported,
                                stopQueued = False\<rparr>,
                        isPlaying := True\<rparr>)"

definition recorderStop :: "MediaRecorder \<Rightarrow> MediaRecorder" where
  "recorderStop r = (if state r = Inactive then r else r\<lparr>state := Inactive, stopQueued := True\<rparr>)"

text \<open>The effect that watches for the end of the export.\<close>

definition exportFinalizeEffect :: "App \<Rightarrow> App" where
  "exportFinalizeEffect st =
     (if isExporting st \<and> \<not> isPlaying st \<and> currentTime st \<ge> timelineDuration st
      then st\<lparr>mediaRecorderRef := map_option recorderStop (mediaRecorderRef st)\<rparr>
      else st)"

definition ondataavailable :: "Blob \<Rightarrow> App \<Rightarrow> App" where
  "ondataavailable blob st =
     (if length blob > 0 then st\<lparr>recordedChunksRef := recordedChunksRef st @ [blob]\<rparr> else st)"

definition onstop :: "MediaRecorder \<Rightarrow> App \<Rightarrow> App" where
  "onstop r st =
     st\<lparr>downloads := downloads st @ [\<lparr>blobParts = recordedChunksRef st, blobType = mimeType r\<rparr>],
        isExporting := False, currentTime := 0\<rparr>"

section \<open>Rendering: the effects after a state change\<close>

text \<open>
  After a handler has run, React renders and runs the effects in the order of their
  declaration. The auto-adjust effect stores the new duration, which renders again, so
  the two other effects see first the old duration and then the new one. An effect whose
  dependencies did not change is skipped in the source; here each one runs every time.
  The extra runs do no harm: \<open>playbackEffect\<close> and the auto-adjust effect are idempotent,
  and \<open>stop()\<close> on a recorder that is already inactive does nothing.
\<close>

definition effects :: "App \<Rightarrow> App" where
  "effects st =
     exportFinalizeEffect (playbackEffect (autoAdjustTotalDuration
       (exportFinalizeEffect (playbackEffect st))))"

definition dispatch :: "(App \<Rightarrow> App) \<Rightarrow> App \<Rightarrow> App" where
  "dispatch handler st = effects (handler st)"

section \<open>The operations of the edit engine\<close>

text \<open>
  The operations as the specification names them, each built from the handlers above.
  A drag is a mouse-down on the clip at horizontal position 0, one mouse-move to the
  position that makes the pointer travel \<open>deltaTime\<close> seconds, and the mouse-up. Split
  acts on the selected clip at the playhead, Copy on the selected clip; \<open>Delete\<close> is the
  context-menu entry of the clip. The strings \<open>newId\<close> are results of \<open>generateId()\<close>.
\<close>

datatype EditOp =
    AddClip string string File string MediaType Metadata
  | Move string real
  | TrimStart string real
  | TrimEnd string real
  | Split string real string string
  | Delete string
  | Copy string
  | Paste string
  | ClearAll

definition drag :: "DragMode \<Rightarrow> string \<Rightarrow> real \<Rightarrow> App \<Rightarrow> App" where
  "drag m cid deltaTime st =
     (case findClip (Some cid) (clips st) of
        None \<Rightarrow> st
      | Some clip \<Rightarrow>
          dispatch handleMouseUp
            (dispatch (handleMouseMove (deltaTime * PIXELS_PER_SECOND))
               (dispatch (handleMouseDown 0 clip m) st)))"

fun applyOp :: "EditOp \<Rightarrow> App \<Rightarrow> App" where
  "applyOp (AddClip newId url f tid ty meta) st =
     dispatch (addClipFromFile newId url f tid ty meta) st"
| "applyOp (Move cid deltaTime) st = drag MoveMode cid deltaTime st"
| "applyOp (TrimStart cid deltaTime) st = drag TrimStartMode cid deltaTime st"
| "applyOp (TrimEnd cid deltaTime) st = drag TrimEndMode cid deltaTime st"
| "applyOp (Split cid atTime newId1 newId2) st =
     dispatch (handleSplitClip newId1 newId2)
       (setCurrentTime atTime (setSelectedClipId (Some cid) st))"
| "applyOp (Delete cid) st = dispatch (handleDeleteClip cid) st"
| "applyOp (Copy cid) st = dispatch keyCopy (setSelectedClipId (Some cid) st)"
| "applyOp (Paste newId) st = dispatch (keyPaste newId) st"
| "applyOp ClearAll st = dispatch clearAll st"

section \<open>Events\<close>

text \<open>
  What can happen to the application, with the guards the user interface puts on its
  controls: while exporting the play and back buttons are disabled and a seek is
  ignored; an animation frame arrives only while playing; the recorder delivers data
  while it records or has a \<open>stop\<close> event queued, and the \<open>stop\<close> event once it is queued.
\<close>

datatype Event =
    Edit EditOp
  | TogglePlay
  | Back
  | TimelineClick real
  | Export
  | ExportTimeout "string \<Rightarrow> bool"
  | Frame real
  | DataAvailable Blob
  | RecorderStopped

definition deliverData :: "Blob \<Rightarrow> App \<Rightarrow> App" where
  "deliverData blob st =
     (case mediaRecorderRef st of
        None \<Rightarrow> st
      | Some r \<Rightarrow> if state r = Recording \<or> stopQueued r then ondataavailable blob st else st)"

definition deliverStop :: "App \<Rightarrow> App" where
  "deliverStop st =
     (case mediaRecorderRef st of
        None \<Rightarrow> st
      | Some r \<Rightarrow>
          if stopQueued r
          then onstop r (st\<lparr>mediaRecorderRef := Some (r\<lparr>stopQueued := False\<rparr>)\<rparr>)
          else st)"

fun step :: "Event \<Rightarrow> App \<Rightarrow> App" where
  "step (Edit op) st = applyOp op st"
| "step TogglePlay st = dispatch (\<lambda>s. if isExporting s then s else togglePlay s) st"
| "step Back st = dispatch (\<lambda>s. if isExporting s then s else setCurrentTime 0 s) st"
| "step (TimelineClick x) st = dispatch (handleTimelineClick x) st"
| "step Export st = dispatch handleExport st"
| "step (ExportTimeout isTypeSupported) st = dispatch (exportTimeout isTypeSupported) st"
| "step (Frame time) st = dispatch (\<lambda>s. if isPlaying s then animate time s else s) st"
| "step (DataAvailable blob) st = dispatch (deliverData blob) st"
| "step RecorderStopped st = dispatch deliverStop st"

definition run :: "Event list \<Rightarrow> App \<Rightarrow> App" where
  "run es st = foldl (\<lambda>s e. step e s) st es"

definition initialApp :: App where
  "initialApp =
     \<lparr>clips = [], isPlaying = False, isExporting = False, currentTime = 0,
      timelineDuration = 30, selectedClipId = None, previousTimeRef = None,
      clipboardRef = None,
      dragState = \<lparr>isDragging = False, mode = None, clipId = None, startX = 0,
                    originalStart = 0, originalDuration = 0, originalOffset = 0\<rparr>,
      refsMounted = True, exportTimer = False, mediaRecorderRef = None,
      recordedChunksRef = [], downloads = []\<rparr>"

section \<open>Media synchronisation (Player and App effects)\<close>


datatype MediaCall = SetCurrentTime real | PlayCall | PauseCall







fun isSeek :: "MediaCall \<Rightarrow> bool" where
  "isSeek (SetCurrentTime t) = True"
| "isSeek call = False"

definition seeks :: "MediaCall list \<Rightarrow> bool" where
  "seeks calls = list_ex isSeek calls"


section \<open>Notions used to state the properties\<close>







section \<open>Clip invariants\<close>




fun isCopy :: "EditOp \<Rightarrow> bool" where
  "isCopy (Copy cid) = True"
| "isCopy op = False"

definition applyOps :: "EditOp list \<Rightarrow> App \<Rightarrow> App" where
  "applyOps ops st = foldl (\<lambda>s op. applyOp op s) st ops"

section \<open>Export phases\<close>

datatype ExportPhase = Idle | Preparing | RecordingPhase | Finalizing

definition isRecording :: "App \<Rightarrow> bool" where
  "isRecording st =
     (case mediaRecorderRef st of None \<Rightarrow> False | Some r \<Rightarrow> state r = Recording)"

definition stopPending :: "App \<Rightarrow> bool" where
  "stopPending st = (case mediaRecorderRef st of None \<Rightarrow> False | Some r \<Rightarrow> stopQueued r)"

definition exportPhase :: "App \<Rightarrow> ExportPhase" where
  "exportPhase st =
     (if \<not> isExporting st then Idle
      else if exportTimer st then Preparing
      else if isRecording st then RecordingPhase
      else Finalizing)"

text \<open>
  What holds of every state the application reaches from its initial state: the stored
  duration is the one computed from the clips, a pending timeout or an active recorder
  means an export is running, and the recorder records exactly while the export plays.
\<close>

definition exportInv :: "App \<Rightarrow> bool" where
  "exportInv st =
     (refsMounted st
      \<and> timelineDuration st = newDuration (clips st)
      \<and> (exportTimer st \<longrightarrow> isExporting st \<and> \<not> isPlaying st \<and> \<not> isRecording st
                            \<and> \<not> stopPending st)
      \<and> (isRecording st \<longrightarrow> isExporting st \<and> isPlaying st \<and> \<not> stopPending st)
      \<and> (stopPending st \<longrightarrow> isExporting st \<and> \<not> isPlaying st)
      \<and> (isExporting st \<longrightarrow> exportTimer st \<or> isRecording st \<or> stopPending st))"

text \<open>The part of the state that belongs to the transport and the export pipeline.\<close>

definition transport ::
  "App \<Rightarrow> bool \<times> bool \<times> bool \<times> MediaRecorder option \<times> Artifact list \<times> bool" where
  "transport st =
     (isPlaying st, isExporting st, exportTimer st, mediaRecorderRef st, downloads st,
      refsMounted st)"

text \<open>
  Counting along a run: the steps that start an export, the steps in which the encoder
  is stopped, and the steps that deliver an artefact.
\<close>

definition exportStarted :: "App \<Rightarrow> App \<Rightarrow> bool" where
  "exportStarted s s' = (\<not> isExporting s \<and> isExporting s')"

definition encoderStopped :: "App \<Rightarrow> App \<Rightarrow> bool" where
  "encoderStopped s s' = (isRecording s \<and> \<not> isRecording s')"

definition artifactDelivered :: "App \<Rightarrow> App \<Rightarrow> bool" where
  "artifactDelivered s s' = (length (downloads s') > length (downloads s))"

record Counts =
  starts :: nat
  stops :: nat
  deliveries :: nat

definition count :: "App \<Rightarrow> App \<Rightarrow> Counts \<Rightarrow> Counts" where
  "count s s' n =
     \<lparr>starts = starts n + (if exportStarted s s' then 1 else 0),
      stops = stops n + (if encoderStopped s s' then 1 else 0),
      deliveries = deliveries n + (if artifactDelivered s s' then 1 else 0)\<rparr>"

fun runCounting :: "Event list \<Rightarrow> App \<times> Counts \<Rightarrow> App \<times> Counts" where
  "runCounting [] sn = sn"
| "runCounting (e # es) (s, n) = runCounting es (step e s, count s (step e s) n)"

text \<open>
  How the counts stand in each phase: an export that is not yet finalizing is one start
  ahead of the stops, a finalizing one is one stop ahead of the deliveries, and in the
  idle phase every export started has been stopped once and delivered once.
\<close>

definition countsAgree :: "App \<Rightarrow> Counts \<Rightarrow> bool" where
  "countsAgree st n =
     (length (downloads st) = deliveries n
      \<and> (case exportPhase st of
            Idle \<Rightarrow> stops n = starts n \<and> deliveries n = starts n
          | Preparing \<Rightarrow> starts n = stops n + 1 \<and> deliveries n = stops n
          | RecordingPhase \<Rightarrow> starts n = stops n + 1 \<and> deliveries n = stops n
          | Finalizing \<Rightarrow> stops n = starts n \<and> starts n = deliveries n + 1))"

fun isFrame :: "Event \<Rightarrow> bool" where
  "isFrame (Frame time) = True"
| "isFrame e = False"

text \<open>
  What one step may do to an export. An export starts on the way from idle to
  preparing, the encoder is stopped on the way from recording to finalizing, an artefact
  is delivered on the way from finalizing to idle, and the only other change of phase
  is from preparing to recording. The encoder is stopped only by a frame, and then the
  export mode is on, the transport has stopped and the position is the timeline
  duration. An artefact is delivered only by the recorder's \<open>stop\<close> event; it consists of
  the buffered chunks, and the export mode is off afterwards.
\<close>

definition exportStep :: "Event \<Rightarrow> App \<Rightarrow> App \<Rightarrow> bool" where
  "exportStep e st st' =
     ((exportStarted st st' \<longleftrightarrow> exportPhase st = Idle \<and> exportPhase st' = Preparing)
      \<and> (encoderStopped st st'
           \<longleftrightarrow> exportPhase st = RecordingPhase \<and> exportPhase st' = Finalizing)
      \<and> (artifactDelivered st st' \<longleftrightarrow> exportPhase st = Finalizing \<and> exportPhase st' = Idle)
      \<and> (exportPhase st' = exportPhase st \<or> exportStarted st st' \<or> encoderStopped st st'
           \<or> artifactDelivered st st'
           \<or> exportPhase st = Preparing \<and> exportPhase st' = RecordingPhase)
      \<and> (encoderStopped st st' \<longrightarrow>
            isFrame e \<and> isExporting st' \<and> \<not> isPlaying st'
            \<and> currentTime st' = timelineDuration st')
      \<and> (artifactDelivered st st' \<longrightarrow>
            e = RecorderStopped \<and> \<not> isExporting st' \<and> currentTime st' = 0
            \<and> (case mediaRecorderRef st of
                  None \<Rightarrow> False
                | Some r \<Rightarrow>
                    downloads st' =
                      downloads st @ [\<lparr>blobParts = recordedChunksRef st, blobType = mimeType r\<rparr>]))
      \<and> (\<not> artifactDelivered st st' \<longrightarrow> downloads st' = downloads st))"

definition noCounts :: Counts where
  "noCounts = \<lparr>starts = 0, stops = 0, deliveries = 0\<rparr>"

section \<open>Example values\<close>

definition demoFile :: File where
  "demoFile = \<lparr>file_name = ''a.mp4'', file_type = ''video/mp4''\<rparr>"

definition demoClip :: Clip where
  "demoClip =
     \<lparr>id' = ''a'', trackId = ''track-1'', source = ''blob:a'', file' = demoFile,
      type' = Video, start = 0, duration = 5, offset = 0, totalDuration = 5,
      name = ''a.mp4'', thumbnail = None, width = None, height = None\<rparr>"

definition demoApp :: App where
  "demoApp = initialApp\<lparr>clips := [demoClip], timelineDuration := 5\<rparr>"






text \<open>Playing, 4.9 s into the 5 s timeline, the last frame having come at time stamp 0.\<close>

definition playingApp :: App where
  "playingApp = demoApp\<lparr>isPlaying := True, previousTimeRef := Some 0, currentTime := 49 / 10\<rparr>"

text \<open>
  An export of a timeline of 5 s up to the last frame before the end: import of a clip
  of 5 s, export request, the timeout, frames at 0 s and 2 s with a chunk in between.
\<close>

definition fiveSeconds :: Metadata where
  "fiveSeconds = \<lparr>metaDuration = 5, metaWidth = Some 1280, metaHeight = Some 720\<rparr>"

definition recordingRun :: "Event list" where
  "recordingRun =
     [Edit (AddClip ''a'' ''blob:a'' demoFile ''track-1'' Video fiveSeconds), Export,
      ExportTimeout (\<lambda>mime. False), Frame 0, DataAvailable ''xy'', Frame 2000]"


section \<open>Basic facts about the handlers\<close>

lemmas effect_defs =
  effects_def exportFinalizeEffect_def playbackEffect_def autoAdjustTotalDuration_def

lemma effects_frame [simp]:
  "clips (effects st) = clips st"
  "selectedClipId (effects st) = selectedClipId st"
  "currentTime (effects st) = currentTime st"
  "clipboardRef (effects st) = clipboardRef st"
  "dragState (effects st) = dragState st"
  "isPlaying (effects st) = isPlaying st"
  "isExporting (effects st) = isExporting st"
  "exportTimer (effects st) = exportTimer st"
  "downloads (effects st) = downloads st"
  "recordedChunksRef (effects st) = recordedChunksRef st"
  "refsMounted (effects st) = refsMounted st"
  "timelineDuration (effects st) = newDuration (clips st)"
  by (simp_all add: effect_defs)



lemma demo_found: "findClip (Some ''a'') (clips demoApp) = Some demoClip"
  by (simp add: findClip_def demoApp_def demoClip_def)

subsection \<open>A drag: mouse-down, one mouse-move, mouse-up\<close>





subsection \<open>Snapping\<close>







section \<open>Move\<close>




section \<open>Trimming\<close>













section \<open>Split\<close>








section \<open>Clip invariants under the edit operations\<close>




























section \<open>Timeline duration\<close>





lemma drag_effects: "drag m cid deltaTime st = st \<or> (\<exists>s. drag m cid deltaTime st = effects s)"
  by (auto simp: drag_def dispatch_def split: option.splits)

lemma applyOp_effects: "applyOp op st = st \<or> (\<exists>s. applyOp op st = effects s)"
  using drag_effects by (cases op) (auto simp: dispatch_def)






section \<open>Copy and paste\<close>

lemma clipboardRef_handlers [simp]:
  "clipboardRef (setClips f st) = clipboardRef st"
  "clipboardRef (setSelectedClipId i st) = clipboardRef st"
  "clipboardRef (setCurrentTime t st) = clipboardRef st"
  "clipboardRef (handleMouseDown x c m st) = clipboardRef st"
  "clipboardRef (handleMouseUp st) = clipboardRef st"
  "clipboardRef (handleClipUpdate j u st) = clipboardRef st"
  "clipboardRef (dispatch h st) = clipboardRef (h st)"
  by (simp_all add: setClips_def setSelectedClipId_def setCurrentTime_def handleMouseDown_def
      handleMouseUp_def handleClipUpdate_def dispatch_def)

lemma clipboardRef_handleMouseMove [simp]:
  "clipboardRef (handleMouseMove x st) = clipboardRef st"
  by (simp add: handleMouseMove_def Let_def split: option.splits)

lemma clipboardRef_drag [simp]: "clipboardRef (drag m cid deltaTime st) = clipboardRef st"
  by (simp add: drag_def split: option.splits)

lemma clipboardRef_handleSplitClip [simp]:
  "clipboardRef (handleSplitClip idL idR st) = clipboardRef st"
  by (simp add: handleSplitClip_def Let_def split: option.splits)

lemma clipboardRef_others [simp]:
  "clipboardRef (addClipFromFile newId url f tid ty meta st) = clipboardRef st"
  "clipboardRef (handleDeleteClip cid st) = clipboardRef st"
  "clipboardRef (keyPaste newId st) = clipboardRef st"
  "clipboardRef (clearAll st) = clipboardRef st"
  by (simp_all add: addClipFromFile_def handleDeleteClip_def keyPaste_def clearAll_def Let_def
      split: option.splits)

lemma clipboardRef_applyOp: "\<not> isCopy op \<Longrightarrow> clipboardRef (applyOp op st) = clipboardRef st"
  by (cases op) simp_all

lemma clipboardRef_applyOps:
  "list_all (\<lambda>op. \<not> isCopy op) ops \<Longrightarrow> clipboardRef (applyOps ops st) = clipboardRef st"
  unfolding applyOps_def
  by (induction ops arbitrary: st) (simp_all add: clipboardRef_applyOp)

lemma clipboardRef_Copy:
  assumes "findClip (Some cid) (clips st) = Some c" "cid \<noteq> []"
  shows "clipboardRef (applyOp (Copy cid) st) = Some c"
  using assms by (simp add: keyCopy_def setSelectedClipId_def truthy_def)

lemma paste_result:
  assumes "clipboardRef st = Some cb"
  shows "applyOp (Paste newId) st =
     effects (st\<lparr>clips := clips st @
                 [cb\<lparr>id' := newId,
                     start := (case findClip (selectedClipId st) (clips st) of
                                 Some sel \<Rightarrow> start sel + duration sel
                               | None \<Rightarrow> currentTime st)\<rparr>],
               selectedClipId := Some newId\<rparr>)"
  using assms
  by (simp add: dispatch_def keyPaste_def Let_def setClips_def setSelectedClipId_def)

text \<open>
  Claim C10. After \<open>Copy(clipId)\<close> of a clip of the model the clipboard holds that clip
  as it was then. No later operation other than another copy changes the clipboard:
  not a move, a trim, a split or a deletion of the copied clip, not the removal of all
  clips. A paste after any such operations adds one clip to the end of the model, with
  the id drawn for it (fresh when the drawn id is not in the model), whose track,
  duration, offset, source duration, source and name are those of the copied clip at
  the time of the copy, and selects it.
\<close>

theorem clipboard_is_snapshot:
  assumes "findClip (Some cid) (clips st) = Some c" and "cid \<noteq> []"
    and "list_all (\<lambda>op. \<not> isCopy op) ops"
  shows "let st' = applyOps ops (applyOp (Copy cid) st);
             st'' = applyOp (Paste newId) st';
             pasted = last (clips st'')
         in clipboardRef st' = Some c
          \<and> clips st'' = clips st' @ [pasted]
          \<and> selectedClipId st'' = Some newId
          \<and> id' pasted = newId
          \<and> trackId pasted = trackId c \<and> duration pasted = duration c
          \<and> offset pasted = offset c \<and> totalDuration pasted = totalDuration c
          \<and> source pasted = source c \<and> name pasted = name c
          \<and> (newId \<notin> id' ` set (clips st') \<longrightarrow> id' pasted \<notin> id' ` set (clips st'))"
proof -
  define st' where "st' = applyOps ops (applyOp (Copy cid) st)"
  have cb: "clipboardRef st' = Some c"
    unfolding st'_def using clipboardRef_Copy[OF assms(1,2)]
    by (simp add: clipboardRef_applyOps[OF assms(3)])
  show ?thesis
    unfolding Let_def st'_def[symmetric]
    using cb by (simp add: paste_result[OF cb] del: applyOp.simps)
qed

theorem clipboard_is_snapshot_witness:
  "findClip (Some ''a'') (clips demoApp) = Some demoClip \<and> ''a'' \<noteq> []
   \<and> list_all (\<lambda>op. \<not> isCopy op)
        [Move ''a'' 1, TrimEnd ''a'' (- 2), Split ''a'' 2 ''l'' ''r'', Delete ''l'', ClearAll]
   \<and> clips (applyOps
        [Move ''a'' 1, TrimEnd ''a'' (- 2), Split ''a'' 2 ''l'' ''r'', Delete ''l'', ClearAll]
        (applyOp (Copy ''a'') demoApp)) = []
   \<and> clips (applyOp (Paste ''p'')
       (applyOps
        [Move ''a'' 1, TrimEnd ''a'' (- 2), Split ''a'' 2 ''l'' ''r'', Delete ''l'', ClearAll]
        (applyOp (Copy ''a'') demoApp))) = [demoClip\<lparr>id' := ''p'', start := 2\<rparr>]"
proof -
  let ?ops = "[Move ''a'' 1, TrimEnd ''a'' (- 2), Split ''a'' 2 ''l'' ''r'', Delete ''l'', ClearAll]"
  have n: "list_all (\<lambda>op. \<not> isCopy op) ?ops" by simp
  have e: "clips (applyOps ?ops (applyOp (Copy ''a'') demoApp)) = []"
    by (simp add: applyOps_def dispatch_def clearAll_def setClips_def)
  have t: "currentTime (applyOps ?ops (applyOp (Copy ''a'') demoApp)) = 2"
    by code_simp
  have a: "''a'' \<noteq> []" by simp
  have s: "selectedClipId (applyOps ?ops (applyOp (Copy ''a'') demoApp)) = Some ''r''"
    by code_simp
  note th = clipboard_is_snapshot[OF demo_found a n, of "''p''", unfolded Let_def]
  then have cb: "clipboardRef (applyOps ?ops (applyOp (Copy ''a'') demoApp)) = Some demoClip"
    by (rule conjunct1)
  show ?thesis
    using th demo_found n e
    by (simp add: paste_result[OF cb] t s findClip_def del: applyOp.simps)
qed


section \<open>The transport at the end of the timeline\<close>

lemma animate_at_end:
  assumes "previousTimeRef st = Some previousTime"
    and "currentTime st + (time - previousTime) / 1000 \<ge> timelineDuration st"
  shows "animate time st =
     st\<lparr>isPlaying := False,
        currentTime := (if isExporting st then timelineDuration st else 0),
        previousTimeRef := Some time\<rparr>"
  using assms by (simp add: animate_def Let_def)

text \<open>
  Claim C5. While the transport is playing, a tick that would take the position to the
  timeline duration or past it stops playback; the position is then 0 if no export is
  active, and exactly the timeline duration if one is. This holds of \<open>animate\<close> and of
  the whole step of the frame event, and the step leaves the export mode as it was.
\<close>

theorem tick_at_end_stops:
  assumes "isPlaying st" and "previousTimeRef st = Some previousTime"
    and "currentTime st + (time - previousTime) / 1000 \<ge> timelineDuration st"
  shows "\<not> isPlaying (animate time st)
       \<and> currentTime (animate time st) = (if isExporting st then timelineDuration st else 0)
       \<and> \<not> isPlaying (step (Frame time) st)
       \<and> currentTime (step (Frame time) st)
           = (if isExporting st then timelineDuration st else 0)
       \<and> isExporting (step (Frame time) st) = isExporting st"
  using assms(1) by (simp add: animate_at_end[OF assms(2,3)] dispatch_def)

theorem tick_at_end_stops_witness:
  "isPlaying playingApp \<and> previousTimeRef playingApp = Some 0
   \<and> currentTime playingApp + (200 - 0) / 1000 \<ge> timelineDuration playingApp
   \<and> \<not> isExporting playingApp
   \<and> \<not> isPlaying (step (Frame 200) playingApp)
   \<and> currentTime (step (Frame 200) playingApp) = 0
   \<and> \<not> isPlaying (step (Frame 200) (playingApp\<lparr>isExporting := True\<rparr>))
   \<and> currentTime (step (Frame 200) (playingApp\<lparr>isExporting := True\<rparr>)) = 5
   \<and> timelineDuration (step (Frame 200) (playingApp\<lparr>isExporting := True\<rparr>)) = 5"
proof -
  have p: "isPlaying playingApp" "previousTimeRef playingApp = Some 0"
    "currentTime playingApp + (200 - 0) / 1000 \<ge> timelineDuration playingApp"
    "\<not> isExporting playingApp" "timelineDuration playingApp = 5"
    by (simp_all add: playingApp_def demoApp_def initialApp_def)
  have q: "isPlaying (playingApp\<lparr>isExporting := True\<rparr>)"
    "previousTimeRef (playingApp\<lparr>isExporting := True\<rparr>) = Some 0"
    "currentTime (playingApp\<lparr>isExporting := True\<rparr>) + (200 - 0) / 1000
       \<ge> timelineDuration (playingApp\<lparr>isExporting := True\<rparr>)"
    using p by simp_all
  have d: "timelineDuration (step (Frame 200) (playingApp\<lparr>isExporting := True\<rparr>)) = 5"
    by code_simp
  show ?thesis
    using tick_at_end_stops[OF p(1,2,3)] tick_at_end_stops[OF q] p d
    by simp
qed

section \<open>Resynchronisation of the media elements\<close>

lemma seeks_simps [simp]:
  "seeks [] = False"
  "seeks (SetCurrentTime x # calls) = True"
  "seeks (PlayCall # calls) = seeks calls"
  "seeks (PauseCall # calls) = seeks calls"
  "seeks (xs @ ys) = (seeks xs \<or> seeks ys)"
  by (simp_all add: seeks_def)





section \<open>Export: one stop and one artefact per export\<close>

lemma transport_fields:
  assumes "transport a = transport b"
  shows "isPlaying a = isPlaying b" "isExporting a = isExporting b"
    "exportTimer a = exportTimer b" "mediaRecorderRef a = mediaRecorderRef b"
    "downloads a = downloads b" "refsMounted a = refsMounted b"
    "isRecording a = isRecording b" "stopPending a = stopPending b"
    "exportPhase a = exportPhase b"
  using assms by (simp_all add: transport_def isRecording_def stopPending_def exportPhase_def)

lemma exportFinalizeEffect_idle:
  "isRecording s \<longrightarrow> isPlaying s \<Longrightarrow> exportFinalizeEffect s = s"
proof (cases "mediaRecorderRef s")
  case None
  then show ?thesis by (simp add: exportFinalizeEffect_def)
next
  case (Some r)
  assume "isRecording s \<longrightarrow> isPlaying s"
  then have "\<not> isPlaying s \<Longrightarrow> recorderStop r = r"
    using Some by (cases "state r") (simp_all add: isRecording_def recorderStop_def)
  then show ?thesis using Some by (simp add: exportFinalizeEffect_def)
qed

lemma transport_playbackEffect [simp]: "transport (playbackEffect s) = transport s"
  by (simp add: playbackEffect_def transport_def)

lemma transport_autoAdjust [simp]: "transport (autoAdjustTotalDuration s) = transport s"
  by (simp add: autoAdjustTotalDuration_def transport_def)

lemma transport_effects:
  assumes "isRecording s \<longrightarrow> isPlaying s"
  shows "transport (effects s) = transport s"
proof -
  let ?s1 = "playbackEffect s"
  have 1: "isRecording ?s1 \<longrightarrow> isPlaying ?s1"
    using assms transport_fields[OF transport_playbackEffect[of s]] by simp
  let ?s2 = "playbackEffect (autoAdjustTotalDuration (exportFinalizeEffect ?s1))"
  have e1: "exportFinalizeEffect ?s1 = ?s1" using 1 by (rule exportFinalizeEffect_idle)
  have t2: "transport ?s2 = transport s" by (simp add: e1)
  have 2: "isRecording ?s2 \<longrightarrow> isPlaying ?s2"
    using assms transport_fields[OF t2] by simp
  have "effects s = exportFinalizeEffect ?s2" by (simp add: effects_def)
  also have "\<dots> = ?s2" using 2 by (rule exportFinalizeEffect_idle)
  finally show ?thesis using t2 by simp
qed

lemma transport_dispatch:
  assumes "transport (h st) = transport st" "isRecording st \<longrightarrow> isPlaying st"
  shows "transport (dispatch h st) = transport st"
proof -
  have "isRecording (h st) \<longrightarrow> isPlaying (h st)"
    using assms transport_fields[OF assms(1)] by simp
  then show ?thesis unfolding dispatch_def using assms(1) by (simp add: transport_effects)
qed

lemma transport_edit_handlers [simp]:
  "transport (setClips f st) = transport st"
  "transport (setSelectedClipId j st) = transport st"
  "transport (setCurrentTime t st) = transport st"
  "transport (handleMouseDown x c m st) = transport st"
  "transport (handleMouseUp st) = transport st"
  "transport (handleClipUpdate k u st) = transport st"
  by (simp_all add: setClips_def setSelectedClipId_def setCurrentTime_def handleMouseDown_def
      handleMouseUp_def handleClipUpdate_def transport_def)

lemma transport_handleMouseMove [simp]: "transport (handleMouseMove x st) = transport st"
  by (simp add: handleMouseMove_def Let_def split: option.splits)

lemma transport_handleSplitClip [simp]: "transport (handleSplitClip idL idR st) = transport st"
  by (simp add: handleSplitClip_def Let_def split: option.splits)

lemma transport_more_handlers [simp]:
  "transport (addClipFromFile newId url f tid ty meta st) = transport st"
  "transport (handleDeleteClip cid st) = transport st"
  "transport (keyPaste newId st) = transport st"
  "transport (clearAll st) = transport st"
  by (simp_all add: addClipFromFile_def handleDeleteClip_def keyPaste_def clearAll_def Let_def
      split: option.splits)

lemma transport_keyCopy [simp]: "transport (keyCopy st) = transport st"
  by (simp add: keyCopy_def transport_def split: option.splits)

lemma transport_drag:
  assumes "isRecording st \<longrightarrow> isPlaying st"
  shows "transport (drag m cid deltaTime st) = transport st"
proof (cases "findClip (Some cid) (clips st)")
  case None
  then show ?thesis by (simp add: drag_def)
next
  case (Some c)
  let ?s1 = "dispatch (handleMouseDown 0 c m) st"
  let ?s2 = "dispatch (handleMouseMove (deltaTime * PIXELS_PER_SECOND)) ?s1"
  have 1: "transport ?s1 = transport st" using assms by (intro transport_dispatch) simp_all
  then have r1: "isRecording ?s1 \<longrightarrow> isPlaying ?s1"
    using assms transport_fields[OF 1] by simp
  have 2: "transport ?s2 = transport ?s1" using r1 by (intro transport_dispatch) simp_all
  then have r2: "isRecording ?s2 \<longrightarrow> isPlaying ?s2"
    using r1 transport_fields[OF 2] by simp
  have 3: "transport (dispatch handleMouseUp ?s2) = transport ?s2"
    using r2 by (intro transport_dispatch) simp_all
  show ?thesis using Some 1 2 3 by (simp add: drag_def)
qed

lemma transport_applyOp:
  assumes "isRecording st \<longrightarrow> isPlaying st"
  shows "transport (applyOp op st) = transport st"
proof (cases op)
  case (Split cid atTime idL idR)
  let ?s = "setCurrentTime atTime (setSelectedClipId (Some cid) st)"
  have t: "transport ?s = transport st" by simp
  then have "isRecording ?s \<longrightarrow> isPlaying ?s" using assms transport_fields[OF t] by simp
  then have "transport (dispatch (handleSplitClip idL idR) ?s) = transport ?s"
    by (intro transport_dispatch) simp_all
  then show ?thesis using Split t by simp
next
  case (Copy cid)
  let ?s = "setSelectedClipId (Some cid) st"
  have t: "transport ?s = transport st" by simp
  then have "isRecording ?s \<longrightarrow> isPlaying ?s" using assms transport_fields[OF t] by simp
  then have "transport (dispatch keyCopy ?s) = transport ?s"
    by (intro transport_dispatch) simp_all
  then show ?thesis using Copy t by simp
qed (use assms in \<open>simp_all add: transport_drag transport_dispatch\<close>)


lemma exportInv_transport:
  assumes "transport a = transport b" "exportInv b" "timelineDuration a = newDuration (clips a)"
  shows "exportInv a"
  using assms(2,3) transport_fields[OF assms(1)] by (simp add: exportInv_def)

lemma same_phase_step:
  assumes p: "exportPhase st' = exportPhase st" and "isExporting st' = isExporting st"
    and "isRecording st' = isRecording st" and d: "downloads st' = downloads st"
  shows "exportStep e st st'"
proof -
  have 1: "\<not> exportStarted st st'" using assms(2) by (simp add: exportStarted_def)
  have 2: "\<not> encoderStopped st st'" using assms(3) by (simp add: encoderStopped_def)
  have 3: "\<not> artifactDelivered st st'" using d by (simp add: artifactDelivered_def)
  have 4: "\<not> (exportPhase st = Idle \<and> exportPhase st = Preparing)"
    "\<not> (exportPhase st = RecordingPhase \<and> exportPhase st = Finalizing)"
    "\<not> (exportPhase st = Finalizing \<and> exportPhase st = Idle)"
    by auto
  show ?thesis
    unfolding exportStep_def p
    using 1 2 3 4 d by blast
qed

lemma quiet_step:
  assumes "transport st' = transport st"
  shows "exportStep e st st'"
  using transport_fields[OF assms] by (intro same_phase_step)

lemma inv_recording_plays: "exportInv st \<Longrightarrow> isRecording st \<longrightarrow> isPlaying st"
  by (simp add: exportInv_def)

lemma quiet_dispatch:
  assumes "exportInv st" "transport (h st) = transport st"
  shows "exportInv (dispatch h st) \<and> exportStep e st (dispatch h st)"
proof -
  have t: "transport (dispatch h st) = transport st"
    using assms(2) inv_recording_plays[OF assms(1)] by (rule transport_dispatch)
  have "timelineDuration (dispatch h st) = newDuration (clips (dispatch h st))"
    by (simp add: dispatch_def)
  then show ?thesis
    using exportInv_transport[OF t assms(1)] quiet_step[OF t] by simp
qed

lemma edit_step:
  assumes "exportInv st"
  shows "exportInv (applyOp op st) \<and> exportStep e st (applyOp op st)"
proof -
  have t: "transport (applyOp op st) = transport st"
    using inv_recording_plays[OF assms] by (rule transport_applyOp)
  have "timelineDuration (applyOp op st) = newDuration (clips (applyOp op st))"
    using applyOp_effects[of op st] assms by (auto simp: exportInv_def)
  then show ?thesis
    using exportInv_transport[OF t assms] quiet_step[OF t] by simp
qed


lemma recorderStop_idem: "recorderStop (recorderStop r) = recorderStop r"
  by (simp add: recorderStop_def)

lemma effects_recorder:
  assumes "timelineDuration s = newDuration (clips s)"
  shows "mediaRecorderRef (effects s) =
     (if isExporting s \<and> \<not> isPlaying s \<and> currentTime s \<ge> timelineDuration s
      then map_option recorderStop (mediaRecorderRef s) else mediaRecorderRef s)"
  using assms
  by (simp add: effect_defs option.map_comp comp_def recorderStop_idem)

text \<open>The invariant and the step property from the values of the flags.\<close>

lemma exportInv_flags:
  assumes "refsMounted s" "timelineDuration s = newDuration (clips s)"
    and "exportTimer s \<Longrightarrow> isExporting s \<and> \<not> isPlaying s \<and> \<not> isRecording s \<and> \<not> stopPending s"
    and "isRecording s \<Longrightarrow> isExporting s \<and> isPlaying s \<and> \<not> stopPending s"
    and "stopPending s \<Longrightarrow> isExporting s \<and> \<not> isPlaying s"
    and "isExporting s \<Longrightarrow> exportTimer s \<or> isRecording s \<or> stopPending s"
  shows "exportInv s"
  unfolding exportInv_def using assms by blast

lemma inv_idle:
  assumes "exportInv st" "\<not> isExporting st"
  shows "\<not> exportTimer st" "\<not> isRecording st" "\<not> stopPending st"
  using assms by (auto simp: exportInv_def)

lemma toggle_step:
  assumes inv: "exportInv st" and idle: "\<not> isExporting st"
    and h: "isExporting s = isExporting st" "exportTimer s = exportTimer st"
      "mediaRecorderRef s = mediaRecorderRef st" "downloads s = downloads st"
      "refsMounted s = refsMounted st" "clips s = clips st"
      "timelineDuration s = timelineDuration st"
  shows "exportInv (effects s) \<and> exportStep e st (effects s)"
proof -
  have td: "timelineDuration s = newDuration (clips s)"
    using inv h by (simp add: exportInv_def)
  have r: "mediaRecorderRef (effects s) = mediaRecorderRef st"
    using idle h by (simp add: effects_recorder[OF td])
  then have f: "isRecording (effects s) = isRecording st" "stopPending (effects s) = stopPending st"
    by (simp_all add: isRecording_def stopPending_def)
  have p: "exportPhase (effects s) = exportPhase st"
    using idle h by (simp add: exportPhase_def)
  have "exportInv (effects s)"
    using inv_idle[OF inv idle] idle h f inv by (intro exportInv_flags) (simp_all add: exportInv_def)
  moreover have "exportStep e st (effects s)"
    using p f h by (intro same_phase_step) simp_all
  ultimately show ?thesis by simp
qed


lemma recorderStop_not_recording: "state r \<noteq> Recording \<Longrightarrow> recorderStop r = r"
  by (cases "state r") (simp_all add: recorderStop_def)

lemma not_recording_stop:
  "\<not> isRecording s \<Longrightarrow> map_option recorderStop (mediaRecorderRef s) = mediaRecorderRef s"
  by (cases "mediaRecorderRef s") (simp_all add: isRecording_def recorderStop_not_recording)

lemma inv_duration: "exportInv st \<Longrightarrow> timelineDuration st = newDuration (clips st)"
  by (simp add: exportInv_def)

lemma inv_mounted: "exportInv st \<Longrightarrow> refsMounted st"
  by (simp add: exportInv_def)

lemma phase_simps:
  "\<not> isExporting s \<Longrightarrow> exportPhase s = Idle"
  "isExporting s \<Longrightarrow> exportTimer s \<Longrightarrow> exportPhase s = Preparing"
  "isExporting s \<Longrightarrow> \<not> exportTimer s \<Longrightarrow> isRecording s \<Longrightarrow> exportPhase s = RecordingPhase"
  "isExporting s \<Longrightarrow> \<not> exportTimer s \<Longrightarrow> \<not> isRecording s \<Longrightarrow> exportPhase s = Finalizing"
  by (simp_all add: exportPhase_def)

lemma export_step:
  assumes inv: "exportInv st"
  shows "exportInv (step Export st) \<and> exportStep Export st (step Export st)"
proof (cases "isExporting st")
  case True
  then have "transport (handleExport st) = transport st" by (simp add: handleExport_def)
  then show ?thesis using inv by (simp add: quiet_dispatch)
next
  case False
  note idle = inv_idle[OF inv False]
  define s where "s = handleExport st"
  have s: "isExporting s" "\<not> isPlaying s" "exportTimer s" "currentTime s = 0"
    "mediaRecorderRef s = mediaRecorderRef st" "downloads s = downloads st"
    "refsMounted s" "clips s = clips st" "timelineDuration s = timelineDuration st"
    using False inv_mounted[OF inv] by (simp_all add: s_def handleExport_def)
  have td: "timelineDuration s = newDuration (clips s)" using s inv_duration[OF inv] by simp
  have nr: "\<not> isRecording s" "\<not> stopPending s"
    using idle s(5) by (simp_all add: isRecording_def stopPending_def)
  have r: "mediaRecorderRef (effects s) = mediaRecorderRef s"
    using not_recording_stop[OF nr(1)] by (simp add: effects_recorder[OF td])
  then have f: "\<not> isRecording (effects s)" "\<not> stopPending (effects s)"
    using nr by (simp_all add: isRecording_def stopPending_def)
  have 1: "exportInv (effects s)"
    using s f by (intro exportInv_flags) simp_all
  have p: "exportPhase st = Idle" "exportPhase (effects s) = Preparing"
    using False s by (simp_all add: phase_simps)
  have 2: "exportStep Export st (effects s)"
    unfolding exportStep_def p
    using False s f idle
    by (simp add: exportStarted_def encoderStopped_def artifactDelivered_def)
  show ?thesis using 1 2 by (simp add: dispatch_def s_def)
qed

lemma timeout_step:
  assumes inv: "exportInv st"
  shows "exportInv (step (ExportTimeout supported) st)
       \<and> exportStep (ExportTimeout supported) st (step (ExportTimeout supported) st)"
proof (cases "exportTimer st")
  case False
  then have "transport (exportTimeout supported st) = transport st" by (simp add: exportTimeout_def)
  then show ?thesis using inv by (simp add: quiet_dispatch)
next
  case True
  then have pre: "isExporting st" "\<not> isPlaying st" "\<not> isRecording st" "\<not> stopPending st"
    using inv by (simp_all add: exportInv_def)
  define s where "s = exportTimeout supported st"
  have s: "isExporting s" "isPlaying s" "\<not> exportTimer s"
    "mediaRecorderRef s = Some \<lparr>state = Recording, mimeType = chooseMimeType supported, stopQueued = False\<rparr>"
    "downloads s = downloads st"
    "refsMounted s" "clips s = clips st" "timelineDuration s = timelineDuration st"
    using True pre inv_mounted[OF inv] by (simp_all add: s_def exportTimeout_def Let_def)
  have td: "timelineDuration s = newDuration (clips s)" using s inv_duration[OF inv] by simp
  have r: "mediaRecorderRef (effects s) = mediaRecorderRef s"
    using s by (simp add: effects_recorder[OF td])
  then have f: "isRecording (effects s)" "\<not> stopPending (effects s)"
    using s by (simp_all add: isRecording_def stopPending_def)
  have 1: "exportInv (effects s)"
    using s f by (intro exportInv_flags) simp_all
  have p: "exportPhase st = Preparing" "exportPhase (effects s) = RecordingPhase"
    using True pre s f by (simp_all add: phase_simps)
  have 2: "exportStep (ExportTimeout supported) st (effects s)"
    unfolding exportStep_def p
    using pre s f
    by (simp add: exportStarted_def encoderStopped_def artifactDelivered_def)
  show ?thesis using 1 2 by (simp add: dispatch_def s_def)
qed

lemma stopped_step:
  assumes inv: "exportInv st"
  shows "exportInv (step RecorderStopped st)
       \<and> exportStep RecorderStopped st (step RecorderStopped st)"
proof (cases "stopPending st")
  case False
  then have "transport (deliverStop st) = transport st"
    by (simp add: deliverStop_def stopPending_def split: option.splits)
  then show ?thesis using inv by (simp add: quiet_dispatch)
next
  case True
  then obtain r where r: "mediaRecorderRef st = Some r" "stopQueued r"
    by (auto simp: stopPending_def split: option.splits)
  have pre: "isExporting st" "\<not> isPlaying st" "\<not> isRecording st" "\<not> exportTimer st"
    using True inv by (auto simp: exportInv_def)
  then have ri: "state r = Inactive"
    using r by (cases "state r") (simp_all add: isRecording_def)
  define s where "s = deliverStop st"
  have s: "\<not> isExporting s" "\<not> isPlaying s" "\<not> exportTimer s" "currentTime s = 0"
    "mediaRecorderRef s = Some (r\<lparr>stopQueued := False\<rparr>)"
    "downloads s = downloads st @ [\<lparr>blobParts = recordedChunksRef st, blobType = mimeType r\<rparr>]"
    "refsMounted s" "clips s = clips st" "timelineDuration s = timelineDuration st"
    using r pre inv_mounted[OF inv] by (simp_all add: s_def deliverStop_def onstop_def)
  have td: "timelineDuration s = newDuration (clips s)" using s inv_duration[OF inv] by simp
  have "mediaRecorderRef (effects s) = mediaRecorderRef s"
    using s by (simp add: effects_recorder[OF td])
  then have f: "\<not> isRecording (effects s)" "\<not> stopPending (effects s)"
    using s ri by (simp_all add: isRecording_def stopPending_def)
  have 1: "exportInv (effects s)"
    using s f by (intro exportInv_flags) simp_all
  have p: "exportPhase st = Finalizing" "exportPhase (effects s) = Idle"
    using pre s by (simp_all add: phase_simps)
  have 2: "exportStep RecorderStopped st (effects s)"
    unfolding exportStep_def p
    using pre s f r
    by (simp add: exportStarted_def encoderStopped_def artifactDelivered_def)
  show ?thesis using 1 2 by (simp add: dispatch_def s_def)
qed


lemma togglePlay_step:
  assumes inv: "exportInv st"
  shows "exportInv (step TogglePlay st) \<and> exportStep TogglePlay st (step TogglePlay st)"
proof (cases "isExporting st")
  case True
  then have "transport ((\<lambda>s. if isExporting s then s else togglePlay s) st) = transport st"
    by simp
  then show ?thesis unfolding step.simps by (rule quiet_dispatch[OF inv])
next
  case False
  have "exportInv (effects (togglePlay st)) \<and> exportStep TogglePlay st (effects (togglePlay st))"
    using inv False by (rule toggle_step) (simp_all add: togglePlay_def)
  then show ?thesis using False by (simp add: dispatch_def)
qed

lemma back_step:
  assumes inv: "exportInv st"
  shows "exportInv (step Back st) \<and> exportStep Back st (step Back st)"
proof -
  have "transport ((\<lambda>s. if isExporting s then s else setCurrentTime 0 s) st) = transport st"
    by simp
  then show ?thesis unfolding step.simps by (rule quiet_dispatch[OF inv])
qed

lemma click_step:
  assumes inv: "exportInv st"
  shows "exportInv (step (TimelineClick x) st)
       \<and> exportStep (TimelineClick x) st (step (TimelineClick x) st)"
proof -
  have "transport (handleTimelineClick x st) = transport st"
    by (simp add: handleTimelineClick_def onSeek_def Let_def)
  then show ?thesis unfolding step.simps by (rule quiet_dispatch[OF inv])
qed

lemma data_step:
  assumes inv: "exportInv st"
  shows "exportInv (step (DataAvailable blob) st)
       \<and> exportStep (DataAvailable blob) st (step (DataAvailable blob) st)"
proof -
  have "transport (deliverData blob st) = transport st"
    by (simp add: deliverData_def ondataavailable_def transport_def split: option.splits)
  then show ?thesis unfolding step.simps by (rule quiet_dispatch[OF inv])
qed

lemma frame_step:
  assumes inv: "exportInv st"
  shows "exportInv (step (Frame time) st) \<and> exportStep (Frame time) st (step (Frame time) st)"
proof -
  let ?h = "\<lambda>s. if isPlaying s then animate time s else s"
  have quiet: ?thesis if "transport (?h st) = transport st"
    using that unfolding step.simps by (rule quiet_dispatch[OF inv])
  show ?thesis
  proof (cases "isPlaying st")
    case False
    then show ?thesis by (intro quiet) simp
  next
    case playing: True
    show ?thesis
    proof (cases "previousTimeRef st")
      case None
      then show ?thesis by (intro quiet) (simp add: animate_def transport_def)
    next
      case (Some previousTime)
      show ?thesis
      proof (cases "currentTime st + (time - previousTime) / 1000 \<ge> timelineDuration st")
        case False
        then show ?thesis
          using Some by (intro quiet) (simp add: animate_def transport_def Let_def)
      next
        case True
        define s where "s = animate time st"
        have a: "s = st\<lparr>isPlaying := False,
            currentTime := (if isExporting st then timelineDuration st else 0),
            previousTimeRef := Some time\<rparr>"
          unfolding s_def using Some True by (rule animate_at_end)
        have st': "step (Frame time) st = effects s"
          using playing by (simp add: dispatch_def s_def)
        show ?thesis
        proof (cases "isExporting st")
          case False
          have "exportInv (effects s) \<and> exportStep (Frame time) st (effects s)"
            using inv False by (rule toggle_step) (simp_all add: a)
          then show ?thesis unfolding st' .
        next
          case exporting: True
          have pre: "\<not> exportTimer st" "\<not> stopPending st" "isRecording st"
            using inv playing exporting by (auto simp: exportInv_def)
          then obtain r where r: "mediaRecorderRef st = Some r" "state r = Recording"
            by (auto simp: isRecording_def split: option.splits)
          have s: "isExporting s" "\<not> isPlaying s" "\<not> exportTimer s"
            "currentTime s = timelineDuration s" "mediaRecorderRef s = Some r"
            "downloads s = downloads st" "refsMounted s" "clips s = clips st"
            "timelineDuration s = timelineDuration st"
            using exporting pre r inv_mounted[OF inv] by (simp_all add: a)
          have td: "timelineDuration s = newDuration (clips s)"
            using s inv_duration[OF inv] by simp
          have "mediaRecorderRef (effects s) = Some (recorderStop r)"
            using s by (simp add: effects_recorder[OF td])
          then have f: "\<not> isRecording (effects s)" "stopPending (effects s)"
            using r by (simp_all add: isRecording_def stopPending_def recorderStop_def)
          have 1: "exportInv (effects s)"
            using s f by (intro exportInv_flags) simp_all
          have p: "exportPhase st = RecordingPhase" "exportPhase (effects s) = Finalizing"
            using exporting pre s f by (simp_all add: phase_simps)
          have ct: "currentTime (effects s) = timelineDuration (effects s)"
            using s td by simp
          have 2: "exportStep (Frame time) st (effects s)"
            unfolding exportStep_def p
            using exporting pre s f ct
            by (simp add: exportStarted_def encoderStopped_def artifactDelivered_def)
          show ?thesis unfolding st' using 1 2 by (rule conjI)
        qed
      qed
    qed
  qed
qed

lemma step_export:
  assumes "exportInv st"
  shows "exportInv (step e st) \<and> exportStep e st (step e st)"
proof (cases e)
  case (Edit op)
  then show ?thesis using edit_step[OF assms] by simp
next
  case TogglePlay
  then show ?thesis using togglePlay_step[OF assms] by simp
next
  case Back
  then show ?thesis using back_step[OF assms] by simp
next
  case (TimelineClick x)
  then show ?thesis using click_step[OF assms] by simp
next
  case Export
  then show ?thesis using export_step[OF assms] by simp
next
  case (ExportTimeout supported)
  then show ?thesis using timeout_step[OF assms] by simp
next
  case (Frame time)
  then show ?thesis using frame_step[OF assms] by simp
next
  case (DataAvailable blob)
  then show ?thesis using data_step[OF assms] by simp
next
  case RecorderStopped
  then show ?thesis using stopped_step[OF assms] by simp
qed


lemma count_step:
  assumes "exportStep e st st'" "countsAgree st n"
  shows "countsAgree st' (count st st' n)"
proof -
  have len: "length (downloads st') =
      length (downloads st) + (if artifactDelivered st st' then 1 else 0)"
    using assms(1) by (auto simp: exportStep_def split: option.splits)
  have ph: "(exportStarted st st' \<longleftrightarrow> exportPhase st = Idle \<and> exportPhase st' = Preparing)"
    "(encoderStopped st st' \<longleftrightarrow> exportPhase st = RecordingPhase \<and> exportPhase st' = Finalizing)"
    "(artifactDelivered st st' \<longleftrightarrow> exportPhase st = Finalizing \<and> exportPhase st' = Idle)"
    "exportPhase st' = exportPhase st \<or> exportStarted st st' \<or> encoderStopped st st'
       \<or> artifactDelivered st st' \<or> exportPhase st = Preparing \<and> exportPhase st' = RecordingPhase"
    using assms(1) unfolding exportStep_def by blast+
  show ?thesis
    using assms(2) len ph
    by (cases "exportPhase st"; cases "exportPhase st'")
       (simp_all add: countsAgree_def count_def)
qed

lemma runCounting_inv:
  assumes "exportInv st" "countsAgree st n"
  shows "exportInv (fst (runCounting es (st, n)))
       \<and> countsAgree (fst (runCounting es (st, n))) (snd (runCounting es (st, n)))"
  using assms
proof (induction es arbitrary: st n)
  case Nil
  then show ?case by simp
next
  case (Cons e es)
  have "exportInv (step e st)" "exportStep e st (step e st)"
    using step_export[OF Cons.prems(1)] by simp_all
  moreover from this Cons.prems(2) have "countsAgree (step e st) (count st (step e st) n)"
    by (intro count_step)
  ultimately show ?case using Cons.IH by simp
qed

lemma runCounting_run: "fst (runCounting es (st, n)) = run es st"
  unfolding run_def by (induction es arbitrary: st n) simp_all

lemma initial_inv: "exportInv initialApp" "countsAgree initialApp noCounts"
  by (simp_all add: exportInv_def countsAgree_def initialApp_def noCounts_def exportPhase_def
      isRecording_def stopPending_def newDuration_def maxClipEnd_def)

lemma phase_flags:
  assumes "exportInv st"
  shows "exportPhase st = Preparing \<Longrightarrow> exportTimer st \<and> isExporting st \<and> \<not> isPlaying st"
    and "exportPhase st = RecordingPhase \<Longrightarrow> isRecording st \<and> isExporting st \<and> isPlaying st"
    and "exportPhase st = Finalizing \<Longrightarrow> stopPending st \<and> isExporting st \<and> \<not> isPlaying st"
  using assms by (auto simp: exportPhase_def exportInv_def split: if_splits)

lemma timeout_progress:
  assumes inv: "exportInv st" and p: "exportPhase st = Preparing"
  shows "exportPhase (step (ExportTimeout supported) st) = RecordingPhase"
proof -
  note f = phase_flags(1)[OF inv p]
  define s where "s = exportTimeout supported st"
  have s: "isExporting s" "isPlaying s" "\<not> exportTimer s" "isRecording s"
    "timelineDuration s = newDuration (clips s)"
    using f inv_mounted[OF inv] inv_duration[OF inv]
    by (simp_all add: s_def exportTimeout_def Let_def isRecording_def)
  have "mediaRecorderRef (effects s) = mediaRecorderRef s"
    using s by (simp add: effects_recorder)
  then have "isRecording (effects s)" using s by (simp add: isRecording_def)
  then show ?thesis using s by (simp add: dispatch_def s_def[symmetric] phase_simps)
qed

lemma frame_progress:
  assumes inv: "exportInv st" and p: "exportPhase st = RecordingPhase"
    and prev: "previousTimeRef st = Some previousTime"
    and late: "currentTime st + (time - previousTime) / 1000 \<ge> timelineDuration st"
  shows "exportPhase (step (Frame time) st) = Finalizing"
proof -
  note f = phase_flags(2)[OF inv p]
  have enc: "encoderStopped st (step (Frame time) st) \<Longrightarrow> ?thesis"
    using step_export[OF inv, of "Frame time"] unfolding exportStep_def by blast
  define s where "s = animate time st"
  have a: "s = st\<lparr>isPlaying := False,
      currentTime := (if isExporting st then timelineDuration st else 0),
      previousTimeRef := Some time\<rparr>"
    unfolding s_def using prev late by (rule animate_at_end)
  obtain r where r: "mediaRecorderRef st = Some r" "state r = Recording"
    using f by (auto simp: isRecording_def split: option.splits)
  have s: "isExporting s" "\<not> isPlaying s" "currentTime s = timelineDuration s"
    "mediaRecorderRef s = Some r" "timelineDuration s = newDuration (clips s)"
    using f r inv_duration[OF inv] by (simp_all add: a)
  have "mediaRecorderRef (effects s) = Some (recorderStop r)"
    using s by (simp add: effects_recorder)
  then have "\<not> isRecording (effects s)"
    using r by (simp add: isRecording_def recorderStop_def)
  moreover have "step (Frame time) st = effects s"
    using f by (simp add: dispatch_def s_def)
  ultimately show ?thesis using f enc by (simp add: encoderStopped_def)
qed

lemma stop_progress:
  assumes inv: "exportInv st" and p: "exportPhase st = Finalizing"
  shows "exportPhase (step RecorderStopped st) = Idle"
proof -
  note f = phase_flags(3)[OF inv p]
  then obtain r where r: "mediaRecorderRef st = Some r" "stopQueued r"
    by (auto simp: stopPending_def split: option.splits)
  then have "\<not> isExporting (deliverStop st)"
    by (simp add: deliverStop_def onstop_def)
  then show ?thesis by (simp add: dispatch_def phase_simps)
qed


lemma first_frame_progress:
  assumes inv: "exportInv st" and p: "exportPhase st = RecordingPhase"
    and prev: "previousTimeRef st = None"
  shows "exportPhase (step (Frame time) st) = RecordingPhase
       \<and> previousTimeRef (step (Frame time) st) = Some time
       \<and> currentTime (step (Frame time) st) = currentTime st"
proof -
  note f = phase_flags(2)[OF inv p]
  define s where "s = animate time st"
  have a: "s = st\<lparr>previousTimeRef := Some time\<rparr>"
    using prev by (simp add: s_def animate_def)
  have t: "transport s = transport st" by (simp add: a transport_def)
  have "transport (effects s) = transport s"
    using f transport_fields[OF t] by (intro transport_effects) simp
  then have "exportPhase (effects s) = exportPhase st"
    using transport_fields(9)[OF t] transport_fields(9)[of "effects s" s] by simp
  moreover have "previousTimeRef (effects s) = Some time"
    using f by (simp add: a effect_defs)
  moreover have "step (Frame time) st = effects s"
    using f by (simp add: dispatch_def s_def)
  ultimately show ?thesis using p by (simp add: a)
qed

text \<open>
  Claim C6. Take any sequence of events from the initial state of the application and
  any next event. Along the sequence every export that has been started and has come
  back to the idle phase has had its encoder stopped exactly once and has delivered
  exactly one artefact; an export under way has had at most one stop and no delivery
  before the stop. The next event stops the encoder only if it is a frame that takes a
  recording export to its end, and then the export mode is on, the transport has
  stopped, and the position equals the timeline duration. It delivers an artefact only
  if it is the recorder's \<open>stop\<close> event of a finalizing export; the artefact is made of
  the buffered chunks, and afterwards the export mode is off and the position is 0.
  And the export does get there: the timeout takes a preparing export to recording, the
  first frame of a recording export stores its time stamp, a frame that reaches the
  end of the timeline takes it to finalizing, and the recorder's \<open>stop\<close> event takes it
  back to idle.
\<close>

theorem export_finalizes_exactly_once:
  "case runCounting es (initialApp, noCounts) of
     (st, n) \<Rightarrow>
       st = run es initialApp \<and> exportInv st \<and> countsAgree st n
       \<and> exportStep e st (step e st)
       \<and> (exportPhase st = Preparing \<longrightarrow>
            exportPhase (step (ExportTimeout supported) st) = RecordingPhase)
       \<and> (exportPhase st = RecordingPhase \<and> previousTimeRef st = None \<longrightarrow>
            exportPhase (step (Frame time) st) = RecordingPhase
            \<and> previousTimeRef (step (Frame time) st) = Some time
            \<and> currentTime (step (Frame time) st) = currentTime st)
       \<and> (exportPhase st = RecordingPhase \<and> previousTimeRef st = Some previousTime
            \<and> currentTime st + (time - previousTime) / 1000 \<ge> timelineDuration st \<longrightarrow>
            exportPhase (step (Frame time) st) = Finalizing)
       \<and> (exportPhase st = Finalizing \<longrightarrow> exportPhase (step RecorderStopped st) = Idle)"
proof -
  obtain st n where r: "runCounting es (initialApp, noCounts) = (st, n)"
    by (cases "runCounting es (initialApp, noCounts)")
  have i: "exportInv st" and c: "countsAgree st n"
    using runCounting_inv[OF initial_inv, of es] r by simp_all
  have "st = run es initialApp"
    using runCounting_run[of es initialApp noCounts] r by simp
  moreover have "exportStep e st (step e st)"
    using step_export[OF i] by simp
  moreover note timeout_progress[OF i, of supported] first_frame_progress[OF i, of time]
    frame_progress[OF i, of previousTime time] stop_progress[OF i]
  ultimately show ?thesis using i c r by simp
qed

lemma export_run_facts:
  "exportPhase (run recordingRun initialApp) = RecordingPhase"
  "encoderStopped (run recordingRun initialApp) (step (Frame 5000) (run recordingRun initialApp))"
  "timelineDuration (step (Frame 5000) (run recordingRun initialApp)) = 5"
  "artifactDelivered (run (recordingRun @ [Frame 5000]) initialApp)
     (step RecorderStopped (run (recordingRun @ [Frame 5000]) initialApp))"
  "recordedChunksRef (run (recordingRun @ [Frame 5000]) initialApp) = [''xy'']"
  "map_option mimeType (mediaRecorderRef (run (recordingRun @ [Frame 5000]) initialApp))
     = Some ''video/webm;codecs=vp9''"
  "downloads (run (recordingRun @ [Frame 5000]) initialApp) = []"
  "snd (runCounting (recordingRun @ [Frame 5000, RecorderStopped]) (initialApp, noCounts))
     = \<lparr>starts = 1, stops = 1, deliveries = 1\<rparr>"
  by code_simp+

lemma export_phase_facts:
  "exportPhase (run (take 2 recordingRun) initialApp) = Preparing"
  "exportPhase (run (take 3 recordingRun) initialApp) = RecordingPhase"
  "previousTimeRef (run (take 3 recordingRun) initialApp) = None"
  "previousTimeRef (run recordingRun initialApp) = Some 2000"
  "currentTime (run recordingRun initialApp) + (5000 - 2000) / 1000
     \<ge> timelineDuration (run recordingRun initialApp)"
  "exportPhase (run (recordingRun @ [Frame 5000]) initialApp) = Finalizing"
  "exportPhase (run (recordingRun @ [Frame 5000, RecorderStopped]) initialApp) = Idle"
  by code_simp+

theorem export_finalizes_exactly_once_witness:
  "exportPhase (run (take 2 recordingRun) initialApp) = Preparing
   \<and> exportPhase (run (take 3 recordingRun) initialApp) = RecordingPhase
   \<and> previousTimeRef (run (take 3 recordingRun) initialApp) = None
   \<and> exportPhase (run recordingRun initialApp) = RecordingPhase
   \<and> previousTimeRef (run recordingRun initialApp) = Some 2000
   \<and> currentTime (run recordingRun initialApp) + (5000 - 2000) / 1000
       \<ge> timelineDuration (run recordingRun initialApp)
   \<and> exportPhase (run (recordingRun @ [Frame 5000]) initialApp) = Finalizing
   \<and> exportPhase (run (recordingRun @ [Frame 5000, RecorderStopped]) initialApp) = Idle
   \<and> encoderStopped (run recordingRun initialApp)
        (step (Frame 5000) (run recordingRun initialApp))
   \<and> isExporting (step (Frame 5000) (run recordingRun initialApp))
   \<and> \<not> isPlaying (step (Frame 5000) (run recordingRun initialApp))
   \<and> currentTime (step (Frame 5000) (run recordingRun initialApp)) = 5
   \<and> timelineDuration (step (Frame 5000) (run recordingRun initialApp)) = 5
   \<and> artifactDelivered (run (recordingRun @ [Frame 5000]) initialApp)
        (step RecorderStopped (run (recordingRun @ [Frame 5000]) initialApp))
   \<and> downloads (step RecorderStopped (run (recordingRun @ [Frame 5000]) initialApp))
       = [\<lparr>blobParts = [''xy''], blobType = ''video/webm;codecs=vp9''\<rparr>]
   \<and> \<not> isExporting (step RecorderStopped (run (recordingRun @ [Frame 5000]) initialApp))
   \<and> snd (runCounting (recordingRun @ [Frame 5000, RecorderStopped]) (initialApp, noCounts))
       = \<lparr>starts = 1, stops = 1, deliveries = 1\<rparr>"
proof -
  note A = export_finalizes_exactly_once[where es = recordingRun and e = "Frame 5000",
      unfolded case_prod_beta]
  note B = export_finalizes_exactly_once[where es = "recordingRun @ [Frame 5000]"
      and e = RecorderStopped, unfolded case_prod_beta]
  have a: "exportStep (Frame 5000) (run recordingRun initialApp)
      (step (Frame 5000) (run recordingRun initialApp))"
    using A by metis
  have b: "exportStep RecorderStopped (run (recordingRun @ [Frame 5000]) initialApp)
      (step RecorderStopped (run (recordingRun @ [Frame 5000]) initialApp))"
    using B by metis
  have 1: "isExporting (step (Frame 5000) (run recordingRun initialApp))
      \<and> \<not> isPlaying (step (Frame 5000) (run recordingRun initialApp))
      \<and> currentTime (step (Frame 5000) (run recordingRun initialApp))
          = timelineDuration (step (Frame 5000) (run recordingRun initialApp))"
    using a export_run_facts(2) unfolding exportStep_def by blast
  have 2: "\<not> isExporting (step RecorderStopped (run (recordingRun @ [Frame 5000]) initialApp))
      \<and> (case mediaRecorderRef (run (recordingRun @ [Frame 5000]) initialApp) of
            None \<Rightarrow> False
          | Some r \<Rightarrow>
              downloads (step RecorderStopped (run (recordingRun @ [Frame 5000]) initialApp)) =
                downloads (run (recordingRun @ [Frame 5000]) initialApp)
                @ [\<lparr>blobParts = recordedChunksRef (run (recordingRun @ [Frame 5000]) initialApp),
                    blobType = mimeType r\<rparr>])"
    using b export_run_facts(4) unfolding exportStep_def by blast
  have 3: "downloads (step RecorderStopped (run (recordingRun @ [Frame 5000]) initialApp))
       = [\<lparr>blobParts = [''xy''], blobType = ''video/webm;codecs=vp9''\<rparr>]"
    using 2 export_run_facts(5,6,7)
    by (cases "mediaRecorderRef (run (recordingRun @ [Frame 5000]) initialApp)") simp_all
  show ?thesis
    using 1 2 3 export_run_facts export_phase_facts by simp
qed


end
